theory Spec2Isabelle
  imports Complex_Main "HOL-Library.Signed_Division"
begin

section \<open>Time labels and slot indices\<close>

text \<open>
  The calendar divides an evening into 15-minute slots. The grid rows are the labels
  produced by \<open>generateTimeSlots\<close>; a clicked label is turned into a slot index by
  \<open>convertTimeToSlot\<close>; the reservation list turns a stored slot index back into a label.

  JavaScript numbers that hold slot indices, hours, minutes and seat counts are modelled
  as \<open>int\<close>. The one place where the source divides (\<open>minutes / 15\<close>) is a
  floating-point division, so the result of \<open>convertTimeToSlot\<close> is a \<open>rat\<close>; \<open>None\<close>
  stands for \<open>NaN\<close>.
\<close>

subsection \<open>Number formatting and parsing\<close>

text \<open>\<open>n.toString()\<close> for an integer-valued number: decimal digits, with a minus sign.\<close>

definition digitChar :: "nat \<Rightarrow> char" where
  "digitChar d = ''0123456789'' ! d"

fun showNat :: "nat \<Rightarrow> string" where
  "showNat n = (if n < 10 then [digitChar n] else showNat (n div 10) @ [digitChar (n mod 10)])"

definition toString :: "int \<Rightarrow> string" where
  "toString i = (if i < 0 then CHR ''-'' # showNat (nat (- i)) else showNat (nat i))"

text \<open>\<open>s.padStart(n, c)\<close> with a one-character filler.\<close>

definition padStart :: "nat \<Rightarrow> char \<Rightarrow> string \<Rightarrow> string" where
  "padStart n c s = replicate (n - length s) c @ s"

text \<open>
  \<open>Number(s)\<close> on a string. The model covers the strings made of decimal digits only
  (the empty string converts to 0, as in JavaScript); on any other string it answers
  \<open>None\<close>, which is JavaScript's \<open>NaN\<close> for a string that is no numeric literal. Signs,
  fractions, exponents, radix prefixes and surrounding blanks are not modelled.
\<close>

definition digitVal :: "char \<Rightarrow> nat option" where
  "digitVal c = (let n = (of_char c :: nat) in if 48 \<le> n \<and> n \<le> 57 then Some (n - 48) else None)"

fun readDigits :: "nat \<Rightarrow> string \<Rightarrow> nat option" where
  "readDigits acc [] = Some acc"
| "readDigits acc (c # cs) =
     (case digitVal c of None \<Rightarrow> None | Some d \<Rightarrow> readDigits (10 * acc + d) cs)"

definition Number :: "string \<Rightarrow> int option" where
  "Number s = map_option int (readDigits 0 s)"

text \<open>\<open>s.split(':')\<close>: the pieces between the colons.\<close>

fun split_colon :: "string \<Rightarrow> string list" where
  "split_colon [] = [[]]"
| "split_colon (c # cs) =
     (if c = CHR '':'' then [] # split_colon cs
      else (case split_colon cs of [] \<Rightarrow> [[c]] | p # ps \<Rightarrow> (c # p) # ps))"

subsection \<open>generateTimeSlots\<close>

text \<open>
  The label of one grid row: hours from 24 on are shown as hour - 24, both fields are
  padded to two digits.
\<close>

definition timeString :: "int \<Rightarrow> int \<Rightarrow> string" where
  "timeString hour minute =
     (let displayHour = (if hour \<ge> 24 then hour - 24 else hour)
      in padStart 2 CHR ''0'' (toString displayHour) @ '':'' @ padStart 2 CHR ''0'' (toString minute))"

text \<open>The inner loop over the minutes of one hour, with its \<open>break\<close>.\<close>

function minuteLoop :: "int \<Rightarrow> int \<Rightarrow> string list" where
  "minuteLoop hour minute =
     (if minute < 60
      then (if hour = 27 \<and> minute > 45 then []
            else timeString hour minute # minuteLoop hour (minute + 15))
      else [])"
  by pat_completeness auto
termination
  by (relation "measure (\<lambda>(hour, minute). nat (60 - minute))") auto

text \<open>The outer loop over the hours 18 to 27.\<close>

function hourLoop :: "int \<Rightarrow> string list" where
  "hourLoop hour = (if hour \<le> 27 then minuteLoop hour 0 @ hourLoop (hour + 1) else [])"
  by pat_completeness auto
termination
  by (relation "measure (\<lambda>hour. nat (28 - hour))") auto

definition generateTimeSlots :: "string list" where
  "generateTimeSlots = hourLoop 18"

subsection \<open>convertTimeToSlot\<close>

text \<open>
  \<open>const [hours, minutes] = time.split(':').map(Number)\<close>: a missing piece is
  \<open>undefined\<close>, which behaves as \<open>NaN\<close> in the arithmetic that follows. A comparison with
  \<open>NaN\<close> is false, and arithmetic on \<open>NaN\<close> is \<open>NaN\<close>.
\<close>

definition convertTimeToSlot :: "string \<Rightarrow> rat option" where
  "convertTimeToSlot time =
     (let parts = map Number (split_colon time);
          hours = (case parts of h # _ \<Rightarrow> h | _ \<Rightarrow> None);
          minutes = (case parts of _ # m # _ \<Rightarrow> m | _ \<Rightarrow> None)
      in case hours of
           None \<Rightarrow> None
         | Some h \<Rightarrow>
             (let adjustedHours = (if h < 18 then h + 24 else h)
              in case minutes of
                   None \<Rightarrow> None
                 | Some m \<Rightarrow> Some (of_int ((adjustedHours - 18) * 4) + of_int m / 15)))"

subsection \<open>Slot index back to a label\<close>

text \<open>
  The reservation list (\<open>ReservationManagement\<close>) shows the start time of a stored
  reservation: \<open>Math.floor(timeSlot / 4) + 18\<close> and \<open>(timeSlot % 4) * 15\<close>. On integers
  \<open>Math.floor(a / b)\<close> is \<open>div\<close>, and JavaScript's \<open>%\<close> is the remainder \<open>smod\<close>
  that takes the sign of the dividend. \<open>reservation.timeSlot || 0\<close> replaces a falsy
  value by 0, which changes no integer.
\<close>

definition slotToTime :: "int \<Rightarrow> string" where
  "slotToTime ts =
     (let timeSlot = (if ts = 0 then 0 else ts);
          startHour = timeSlot div 4 + 18;
          startMin = (timeSlot smod 4) * 15;
          displayHour = (if startHour \<ge> 24 then startHour - 24 else startHour)
      in padStart 2 CHR ''0'' (toString displayHour) @ '':'' @ padStart 2 CHR ''0'' (toString startMin))"

section \<open>Seats bookable for a three-hour stay\<close>

text \<open>One entry of the backend's \<open>availableSlots\<close> list.\<close>

record SlotData =
  slot :: int
  availableSeats :: int
  maxCapacity :: int

definition maxSlot :: int where
  "maxSlot = 39"

text \<open>
  The slots a reservation starting at \<open>startSlot\<close> occupies: twelve slots from
  \<open>startSlot\<close> on, those beyond \<open>maxSlot\<close> dropped, when \<open>startSlot \<le> 27\<close>; otherwise
  all slots up to \<open>maxSlot\<close>.
\<close>

definition occupiedSlots :: "int \<Rightarrow> int list" where
  "occupiedSlots startSlot =
     (if startSlot \<le> 27
      then filter (\<lambda>slot. slot \<le> maxSlot) (map (\<lambda>i. startSlot + i) [0..11])
      else [startSlot..maxSlot])"

text \<open>
  The loop over the occupied slots: \<open>availableSlots.find\<close> takes the first entry of the
  slot; an entry lowers the running minimum, a slot without entry returns 0 at once.
\<close>

fun minSeatsLoop :: "SlotData list \<Rightarrow> int \<Rightarrow> int list \<Rightarrow> int" where
  "minSeatsLoop availableSlots minAvailableSeats [] = minAvailableSeats"
| "minSeatsLoop availableSlots minAvailableSeats (s # rest) =
     (case find (\<lambda>e. slot e = s) availableSlots of
        Some slotData \<Rightarrow>
          minSeatsLoop availableSlots (min minAvailableSeats (availableSeats slotData)) rest
      | None \<Rightarrow> 0)"

definition calculateMaxBookableSeats :: "int \<Rightarrow> SlotData list \<Rightarrow> int" where
  "calculateMaxBookableSeats startSlot availableSlots =
     minSeatsLoop availableSlots 6 (occupiedSlots startSlot)"

text \<open>
  The partial mapping from slot index to remaining seats that a list of entries stands
  for: the value of a slot is that of its first entry.
\<close>

definition perSlotAvailability :: "SlotData list \<Rightarrow> int \<Rightarrow> int option" where
  "perSlotAvailability availableSlots s =
     map_option availableSeats (find (\<lambda>e. slot e = s) availableSlots)"

section \<open>Fetching availability and building the schedule\<close>

text \<open>
  The repository holds two copies of the calendar component \<open>ReservationCalendar\<close>. They
  share the control flow of \<open>fetchAvailability\<close>, \<open>initializeSchedule\<close> and
  \<open>refreshSchedule\<close> and differ in one place only: how the cell of one grid row is made
  from the backend's list. The copy with \<open>calculateMaxBookableSeats\<close>
  (\<open>src/unnamed/part_002\<close>) asks for the seats bookable over the whole stay; the other
  copy (\<open>src/unnamed/part_001\<close>) looks at the entry of the slot alone. The shared
  control flow is modelled once; a first argument says which copy is meant.
\<close>

datatype variant = Window | PerSlot

text \<open>
  A calendar date is represented by its day number (days since 1970-01-01); the ISO
  string \<open>toISOString().split('T')[0]\<close> names it, so equality of the strings is equality
  of the day numbers, and \<open>setDate(getDate() \<plusminus> 1)\<close> is \<open>\<plusminus> 1\<close>. The range of
  \<open>generateDateRange\<close> is 2025-06-20 to 2025-07-04.
\<close>

type_synonym date = int

definition generateDateRange :: "date list" where
  "generateDateRange = [20259..20273]"

text \<open>
  The value stored in \<open>availabilityData[date][time]\<close>, of type
  \<open>{available: boolean, availableSeats?: number, maxCapacity?: number}\<close>: \<open>seats\<close> is the
  field \<open>availableSeats\<close> and \<open>capacity\<close> the field \<open>maxCapacity\<close>, \<open>None\<close> being
  \<open>undefined\<close>. The interface \<open>TimeSlot\<close> of the day view has the same fields and
  \<open>time\<close>.
\<close>

record SlotAvailability =
  available :: bool
  seats :: "int option"
  capacity :: "int option"

record TimeSlot = SlotAvailability +
  time :: string

record DaySchedule =
  date :: date
  slots :: "TimeSlot list"

type_synonym availabilityRow = "string \<Rightarrow> SlotAvailability option"
type_synonym availabilityData = "date \<Rightarrow> availabilityRow option"

text \<open>
  What a \<open>try\<close> block around \<open>fetch\<close> and \<open>response.json()\<close> ends with: it throws (the
  request is rejected, the body is no JSON, or the payload has not the shape the code
  reads), or it delivers the payload.
\<close>

datatype 'a outcome = Throws | Returns 'a

text \<open>
  The payload of the per-date endpoint is its field \<open>availableSlots\<close>, \<open>None\<close> when the
  field is missing. The code never looks at \<open>response.ok\<close>, so a request that the backend
  refuses with a JSON error body (\<open>{error, message}\<close>) is such an answer without list:
  it does not throw. The payload of the batch endpoint is its field \<open>availability\<close>
  (\<open>None\<close> when missing): an object from date keys, in key order, to day data, each
  given by its \<open>availableSlots\<close> (\<open>None\<close> when the day data or the field is missing).
\<close>

type_synonym dayPayload = "SlotData list option"
type_synonym batchPayload = "(date \<times> dayPayload) list option"

text \<open>
  The cell of grid row \<open>index\<close>. With the window, the seats bookable for the whole stay
  decide; without it, the entry of the slot itself does, and its \<open>maxCapacity\<close> is
  passed on.
\<close>

definition slotCell :: "variant \<Rightarrow> int \<Rightarrow> SlotData list \<Rightarrow> SlotAvailability" where
  "slotCell v index availableSlots =
     (case v of
        Window \<Rightarrow>
          (let maxAvailableFor3Hours = calculateMaxBookableSeats index availableSlots
           in \<lparr>available = maxAvailableFor3Hours > 0,
               seats = Some maxAvailableFor3Hours,
               capacity = Some 6\<rparr>)
      | PerSlot \<Rightarrow>
          (case find (\<lambda>e. slot e = index) availableSlots of
             Some slotData \<Rightarrow>
               \<lparr>available = True,
                seats = Some (availableSeats slotData),
                capacity = Some (maxCapacity slotData)\<rparr>
           | None \<Rightarrow> \<lparr>available = False, seats = Some 0, capacity = Some 6\<rparr>))"

text \<open>\<open>timeSlots.forEach((timeString, index) => row[timeString] = cell)\<close>.\<close>

definition fillRow :: "variant \<Rightarrow> SlotData list \<Rightarrow> availabilityRow" where
  "fillRow v availableSlots =
     foldl (\<lambda>row (index, timeString). row(timeString \<mapsto> slotCell v (int index) availableSlots))
       Map.empty (enumerate 0 generateTimeSlots)"

text \<open>The row written by the \<open>catch\<close> block of a date: every slot unavailable.\<close>

definition unavailableRow :: availabilityRow where
  "unavailableRow =
     foldl (\<lambda>row timeString. row(timeString \<mapsto> \<lparr>available = False, seats = Some 0, capacity = Some 6\<rparr>))
       Map.empty generateTimeSlots"

text \<open>
  The date key of the batch answer used for \<open>expectedDate\<close>: the date itself, or else the
  first key one day off.
\<close>

definition matchingApiDate :: "date list \<Rightarrow> date \<Rightarrow> date option" where
  "matchingApiDate apiDateKeys expectedDate =
     (case find (\<lambda>apiDate. apiDate = expectedDate) apiDateKeys of
        Some k \<Rightarrow> Some k
      | None \<Rightarrow>
          find (\<lambda>apiDate. apiDate = expectedDate - 1 \<or> apiDate = expectedDate + 1) apiDateKeys)"

text \<open>
  \<open>dayData && dayData.availableSlots\<close> for the matching key: the list of the day, or
  \<open>None\<close> when no key matches or the day has no list.
\<close>

definition batchDayData :: "(date \<times> dayPayload) list \<Rightarrow> date \<Rightarrow> dayPayload" where
  "batchDayData availability expectedDate =
     (case matchingApiDate (map fst availability) expectedDate of
        Some k \<Rightarrow> (case map_of availability k of Some dayData \<Rightarrow> dayData | None \<Rightarrow> None)
      | None \<Rightarrow> None)"

text \<open>
  \<open>dates.forEach\<close> of the batch branch; \<open>None\<close> is the \<open>Error\<close> thrown for a date without
  data, which abandons the rows made so far.
\<close>

fun batchLoop :: "variant \<Rightarrow> (date \<times> dayPayload) list \<Rightarrow> date list \<Rightarrow> availabilityData
    \<Rightarrow> availabilityData option" where
  "batchLoop v availability [] availabilityData = Some availabilityData"
| "batchLoop v availability (expectedDate # rest) availabilityData =
     (case batchDayData availability expectedDate of
        Some availableSlots \<Rightarrow>
          batchLoop v availability rest
            (availabilityData(expectedDate \<mapsto> fillRow v availableSlots))
      | None \<Rightarrow> None)"

text \<open>
  The inner \<open>try\<close> of the batch branch: \<open>Some\<close> is the value it returns; \<open>None\<close> means
  that control goes on to the per-date requests (the block threw, or the answer held
  no dates).
\<close>

definition batchTry :: "variant \<Rightarrow> batchPayload outcome \<Rightarrow> availabilityData option" where
  "batchTry v batch =
     (case batch of
        Throws \<Rightarrow> None
      | Returns None \<Rightarrow> None
      | Returns (Some availability) \<Rightarrow>
          (if length (map fst availability) > 0
           then batchLoop v availability generateDateRange Map.empty
           else None))"

text \<open>One round of \<open>for (const date of dates)\<close> with its \<open>try\<close> and \<open>catch\<close>.\<close>

definition individualStep :: "variant \<Rightarrow> (date \<Rightarrow> dayPayload outcome) \<Rightarrow> availabilityData \<Rightarrow> date
    \<Rightarrow> availabilityData" where
  "individualStep v individual availabilityData d =
     (case individual d of
        Returns (Some availableSlots) \<Rightarrow> availabilityData(d \<mapsto> fillRow v availableSlots)
      | Returns None \<Rightarrow> availabilityData
      | Throws \<Rightarrow> availabilityData(d \<mapsto> unavailableRow))"

text \<open>
  \<open>fetchAvailability\<close>, given what the batch request and the request of each date end
  with. Nothing outside the two inner \<open>try\<close> blocks can throw, so the outermost
  \<open>catch\<close>, which would return the empty object, is never entered.
\<close>

definition fetchAvailability :: "variant \<Rightarrow> batchPayload outcome \<Rightarrow> (date \<Rightarrow> dayPayload outcome)
    \<Rightarrow> availabilityData" where
  "fetchAvailability v batch individual =
     (case batchTry v batch of
        Some availabilityData \<Rightarrow> availabilityData
      | None \<Rightarrow> foldl (individualStep v individual) Map.empty generateDateRange)"

text \<open>
  The schedule that \<open>initializeSchedule\<close> and \<open>refreshSchedule\<close> build from the fetched
  data: \<open>availabilityData[date]?.[time]\<close> and \<open>slotData?.available !== false\<close>.
\<close>

definition scheduleSlot :: "availabilityData \<Rightarrow> date \<Rightarrow> string \<Rightarrow> TimeSlot" where
  "scheduleSlot availabilityData d t =
     (let slotData = (case availabilityData d of None \<Rightarrow> None | Some row \<Rightarrow> row t)
      in \<lparr>available = (map_option available slotData \<noteq> Some False),
          seats = (case slotData of None \<Rightarrow> None | Some c \<Rightarrow> seats c),
          capacity = (case slotData of None \<Rightarrow> None | Some c \<Rightarrow> capacity c),
          time = t\<rparr>)"

definition scheduleData :: "availabilityData \<Rightarrow> DaySchedule list" where
  "scheduleData availabilityData =
     map (\<lambda>d. \<lparr>date = d, slots = map (scheduleSlot availabilityData d) generateTimeSlots\<rparr>)
       generateDateRange"

definition initializeSchedule :: "variant \<Rightarrow> batchPayload outcome \<Rightarrow> (date \<Rightarrow> dayPayload outcome)
    \<Rightarrow> DaySchedule list" where
  "initializeSchedule v batch individual = scheduleData (fetchAvailability v batch individual)"

definition refreshSchedule :: "variant \<Rightarrow> batchPayload outcome \<Rightarrow> (date \<Rightarrow> dayPayload outcome)
    \<Rightarrow> DaySchedule list" where
  "refreshSchedule v batch individual = scheduleData (fetchAvailability v batch individual)"

text \<open>
  The backend list from which the row of a date was made, when the data of that date
  was fetched: the day data of the batch answer if the batch branch returned, else the
  list of the date's own answer. \<open>None\<close> when neither delivered a list for the date.
\<close>

definition fetchedSlots :: "variant \<Rightarrow> batchPayload outcome \<Rightarrow> (date \<Rightarrow> dayPayload outcome) \<Rightarrow> date
    \<Rightarrow> SlotData list option" where
  "fetchedSlots v batch individual d =
     (case batchTry v batch of
        Some _ \<Rightarrow> (case batch of Returns (Some availability) \<Rightarrow> batchDayData availability d | _ \<Rightarrow> None)
      | None \<Rightarrow> (case individual d of Returns (Some availableSlots) \<Rightarrow> Some availableSlots | _ \<Rightarrow> None))"

section \<open>Example inputs\<close>

text \<open>Slots 0 to 11 listed, six seats each, but two at slot 11.\<close>

definition exampleSlots :: "SlotData list" where
  "exampleSlots =
     map (\<lambda>k. \<lparr>slot = k, availableSeats = (if k = 11 then 2 else 6), maxCapacity = 6\<rparr>) [0..11]"

text \<open>Slots 0 to 11 listed, except slot 5.\<close>

definition exampleGap :: "SlotData list" where
  "exampleGap = filter (\<lambda>e. slot e \<noteq> 5) exampleSlots"

text \<open>Every slot listed with nine seats, more than the capacity.\<close>

definition exampleOver :: "SlotData list" where
  "exampleOver = map (\<lambda>k. \<lparr>slot = k, availableSeats = 9, maxCapacity = 6\<rparr>) [0..39]"


definition allWithoutList :: "date \<Rightarrow> dayPayload outcome" where
  "allWithoutList d = Returns None"


text \<open>Per-date answers that all list slot 0 with no seat left.\<close>

definition allSoldOutAtZero :: "date \<Rightarrow> dayPayload outcome" where
  "allSoldOutAtZero d = Returns (Some [\<lparr>slot = 0, availableSeats = 0, maxCapacity = 6\<rparr>])"

section \<open>Facts about the time labels\<close>

lemma generateTimeSlots_eq:
  "generateTimeSlots =
    [''18:00'', ''18:15'', ''18:30'', ''18:45'', ''19:00'', ''19:15'', ''19:30'', ''19:45'',
     ''20:00'', ''20:15'', ''20:30'', ''20:45'', ''21:00'', ''21:15'', ''21:30'', ''21:45'',
     ''22:00'', ''22:15'', ''22:30'', ''22:45'', ''23:00'', ''23:15'', ''23:30'', ''23:45'',
     ''00:00'', ''00:15'', ''00:30'', ''00:45'', ''01:00'', ''01:15'', ''01:30'', ''01:45'',
     ''02:00'', ''02:15'', ''02:30'', ''02:45'', ''03:00'', ''03:15'', ''03:30'', ''03:45'']"
  by code_simp

lemma length_generateTimeSlots: "length generateTimeSlots = 40"
  by (simp add: generateTimeSlots_eq)

lemma convert_all: "map convertTimeToSlot generateTimeSlots = map (\<lambda>i. Some (of_nat i)) [0..<40]"
  by code_simp

lemma back_all: "map (\<lambda>i. slotToTime (int i)) [0..<40] = generateTimeSlots"
  by code_simp

lemma convert_nth: assumes "i < 40" shows "convertTimeToSlot (generateTimeSlots ! i) = Some (of_nat i)"
proof -
  have "map convertTimeToSlot generateTimeSlots ! i = map (\<lambda>i. Some (of_nat i)) [0..<40] ! i"
    by (simp only: convert_all)
  with assms show ?thesis by (simp add: length_generateTimeSlots)
qed

lemma back_nth: assumes "i < 40" shows "slotToTime (int i) = generateTimeSlots ! i"
proof -
  have "map (\<lambda>i. slotToTime (int i)) [0..<40] ! i = generateTimeSlots ! i"
    by (simp only: back_all)
  with assms show ?thesis by simp
qed

section \<open>Facts about the occupied slots and the minimum loop\<close>

lemma map_add_upto: "map (\<lambda>i. s + i) [a..b] = [s + a..s + b]"
proof (induction a b rule: upto.induct)
  case (1 i j)
  show ?case
  proof (cases "i \<le> j")
    case True
    then have "[i..j] = i # [i + 1..j]" by (simp add: upto_rec1)
    moreover from True have "[s + i..s + j] = (s + i) # [s + i + 1..s + j]" by (simp add: upto_rec1)
    ultimately show ?thesis using 1 True by (simp add: add.assoc)
  next
    case False then show ?thesis by simp
  qed
qed

lemma filter_le_upto: "filter (\<lambda>k. k \<le> m) [a..b] = [a..min b m]"
proof (induction a b rule: upto.induct)
  case (1 i j)
  show ?case
  proof (cases "i \<le> j")
    case True
    note ij = this
    have e: "[i..j] = i # [i + 1..j]" using True by (simp add: upto_rec1)
    show ?thesis
    proof (cases "i \<le> m")
      case True
      then have "[i..min j m] = i # [i + 1..min j m]" using ij by (simp add: upto_rec1)
      then show ?thesis using 1 ij True e by simp
    next
      case False
      then have "filter (\<lambda>k. k \<le> m) [i + 1..j] = []" by (auto simp: filter_empty_conv)
      with False e show ?thesis by simp
    qed
  next
    case False then show ?thesis by simp
  qed
qed

lemma occupiedSlots_eq: "occupiedSlots s = (if s \<le> 27 then [s..min (s + 11) 39] else [s..39])"
  by (simp add: occupiedSlots_def maxSlot_def map_add_upto filter_le_upto)

lemma minSeatsLoop_present:
  "\<forall>k\<in>set ks. perSlotAvailability av k \<noteq> None \<Longrightarrow>
   minSeatsLoop av m ks = Min (insert m ((\<lambda>k. the (perSlotAvailability av k)) ` set ks))"
proof (induction ks arbitrary: m)
  case Nil then show ?case by simp
next
  case (Cons k ks)
  let ?S = "(\<lambda>k. the (perSlotAvailability av k)) ` set ks"
  from Cons.prems obtain e where e: "find (\<lambda>e. slot e = k) av = Some e"
    by (auto simp: perSlotAvailability_def)
  then have v: "the (perSlotAvailability av k) = availableSeats e"
    by (simp add: perSlotAvailability_def)
  have "minSeatsLoop av m (k # ks) = minSeatsLoop av (min m (availableSeats e)) ks"
    using e by simp
  also have "\<dots> = Min (insert (min m (availableSeats e)) ?S)"
    using Cons by simp
  also have "\<dots> = Min (insert m (insert (availableSeats e) ?S))"
  proof (cases "?S = {}")
    case True then show ?thesis by simp
  next
    case False
    then show ?thesis by (simp add: min.assoc)
  qed
  finally show ?case using v by simp
qed

lemma minSeatsLoop_missing:
  "\<exists>k\<in>set ks. perSlotAvailability av k = None \<Longrightarrow> minSeatsLoop av m ks = 0"
  by (induction ks arbitrary: m) (auto simp: perSlotAvailability_def split: option.splits)

lemma minSeatsLoop_le: "minSeatsLoop av m ks \<le> max m 0"
proof (induction ks arbitrary: m)
  case Nil then show ?case by simp
next
  case (Cons k ks)
  show ?case
  proof (cases "find (\<lambda>e. slot e = k) av")
    case None then show ?thesis by simp
  next
    case (Some e)
    have "minSeatsLoop av (min m (availableSeats e)) ks \<le> max (min m (availableSeats e)) 0"
      by (rule Cons.IH)
    also have "\<dots> \<le> max m 0" by simp
    finally show ?thesis using Some by simp
  qed
qed

lemma minSeatsLoop_ge:
  "\<forall>k\<in>set ks. \<exists>v. perSlotAvailability av k = Some v \<and> m \<le> v \<Longrightarrow> minSeatsLoop av m ks = m"
proof (induction ks arbitrary: m)
  case Nil then show ?case by simp
next
  case (Cons k ks)
  then obtain e where e: "find (\<lambda>e. slot e = k) av = Some e" and "m \<le> availableSeats e"
    by (auto simp: perSlotAvailability_def)
  then show ?case using Cons by (simp add: min_absorb1)
qed

lemma occupiedSlots_nonempty: "0 \<le> s \<Longrightarrow> s \<le> 39 \<Longrightarrow> s \<in> set (occupiedSlots s)"
  by (simp add: occupiedSlots_eq)

lemma calculateMaxBookableSeats_present:
  "\<forall>k\<in>set (occupiedSlots s). perSlotAvailability av k \<noteq> None \<Longrightarrow>
   calculateMaxBookableSeats s av =
     Min (insert 6 ((\<lambda>k. the (perSlotAvailability av k)) ` set (occupiedSlots s)))"
  unfolding calculateMaxBookableSeats_def by (rule minSeatsLoop_present)

section \<open>Facts about rows, fetching and the schedule\<close>

lemma distinct_generateTimeSlots: "distinct generateTimeSlots"
  by (simp add: generateTimeSlots_eq)

lemma length_generateDateRange: "length generateDateRange = 15"
  by (simp add: generateDateRange_def)

lemma foldl_enumerate_other:
  "t \<notin> set ts \<Longrightarrow> foldl (\<lambda>row (index, k). row(k \<mapsto> f index)) m (enumerate n ts) t = m t"
  by (induction ts arbitrary: m n) auto

lemma foldl_enumerate_nth:
  "distinct ts \<Longrightarrow> i < length ts \<Longrightarrow>
   foldl (\<lambda>row (index, k). row(k \<mapsto> f index)) m (enumerate n ts) (ts ! i) = Some (f (n + i))"
proof (induction ts arbitrary: m n i)
  case Nil then show ?case by simp
next
  case (Cons t ts)
  show ?case
  proof (cases i)
    case 0
    from Cons.prems have "t \<notin> set ts" by simp
    then have "foldl (\<lambda>row (index, k). row(k \<mapsto> f index)) (m(t \<mapsto> f n)) (enumerate (Suc n) ts) t
        = (m(t \<mapsto> f n)) t"
      by (rule foldl_enumerate_other)
    also have "\<dots> = Some (f n)" by simp
    finally show ?thesis using 0 by (simp del: fun_upd_apply)
  next
    case (Suc j)
    with Cons.prems have "foldl (\<lambda>row (index, k). row(k \<mapsto> f index)) (m(t \<mapsto> f n)) (enumerate (Suc n) ts) (ts ! j)
        = Some (f (Suc n + j))"
      by (intro Cons.IH) auto
    with Suc show ?thesis by (simp del: fun_upd_apply)
  qed
qed

lemma fillRow_nth:
  "i < 40 \<Longrightarrow> fillRow v availableSlots (generateTimeSlots ! i) = Some (slotCell v (int i) availableSlots)"
  unfolding fillRow_def
  using foldl_enumerate_nth [of generateTimeSlots i "\<lambda>index. slotCell v (int index) availableSlots" Map.empty 0]
  by (simp add: distinct_generateTimeSlots length_generateTimeSlots)



lemma individualStep_other: "d' \<noteq> d \<Longrightarrow> individualStep v individual acc d' d = acc d"
  by (simp add: individualStep_def split: outcome.splits option.splits)

lemma foldl_individualStep_notin:
  "d \<notin> set ds \<Longrightarrow> foldl (individualStep v individual) acc ds d = acc d"
  by (induction ds arbitrary: acc) (auto simp: individualStep_other)

lemma foldl_individualStep:
  "d \<in> set ds \<Longrightarrow> foldl (individualStep v individual) acc ds d =
     (case individual d of
        Returns (Some availableSlots) \<Rightarrow> Some (fillRow v availableSlots)
      | Returns None \<Rightarrow> acc d
      | Throws \<Rightarrow> Some unavailableRow)"
proof (induction ds arbitrary: acc rule: rev_induct)
  case Nil then show ?case by simp
next
  case (snoc x xs)
  show ?case
  proof (cases "x = d")
    case True
    show ?thesis
    proof (cases "d \<in> set xs")
      case True
      with snoc.IH \<open>x = d\<close> show ?thesis
        by (simp add: individualStep_def split: outcome.splits option.splits)
    next
      case False
      then have "foldl (individualStep v individual) acc xs d = acc d"
        by (rule foldl_individualStep_notin)
      then have "foldl (individualStep v individual) acc (xs @ [x]) d =
          individualStep v individual (foldl (individualStep v individual) acc xs) d d"
        using \<open>x = d\<close> by simp
      also have "\<dots> = (case individual d of
          Returns (Some availableSlots) \<Rightarrow> Some (fillRow v availableSlots)
        | Returns None \<Rightarrow> foldl (individualStep v individual) acc xs d
        | Throws \<Rightarrow> Some unavailableRow)"
        by (simp add: individualStep_def split: outcome.splits option.splits)
      finally show ?thesis
        using \<open>foldl (individualStep v individual) acc xs d = acc d\<close>
        by (simp split: outcome.splits option.splits)
    qed
  next
    case False
    with snoc show ?thesis by (simp add: individualStep_other)
  qed
qed

lemma batchLoop_notin:
  "batchLoop v availability ds acc = Some res \<Longrightarrow> d \<notin> set ds \<Longrightarrow> res d = acc d"
  by (induction ds arbitrary: acc) (auto split: option.splits)

lemma batchLoop_in:
  "batchLoop v availability ds acc = Some res \<Longrightarrow> d \<in> set ds \<Longrightarrow>
   \<exists>availableSlots. batchDayData availability d = Some availableSlots \<and> res d = Some (fillRow v availableSlots)"
proof (induction ds arbitrary: acc)
  case Nil then show ?case by simp
next
  case (Cons x xs)
  from Cons.prems(1) obtain s where s: "batchDayData availability x = Some s"
    and rest: "batchLoop v availability xs (acc(x \<mapsto> fillRow v s)) = Some res"
    by (auto split: option.splits)
  show ?case
  proof (cases "d \<in> set xs")
    case True
    with Cons.IH rest show ?thesis by blast
  next
    case False
    with Cons.prems(2) have "d = x" by simp
    with False rest s show ?thesis by (simp add: batchLoop_notin)
  qed
qed

lemma fetchAvailability_fetched:
  assumes "d \<in> set generateDateRange" and "fetchedSlots v batch individual d = Some availableSlots"
  shows "fetchAvailability v batch individual d = Some (fillRow v availableSlots)"
proof (cases "batchTry v batch")
  case None
  with assms show ?thesis
    by (simp add: fetchAvailability_def fetchedSlots_def foldl_individualStep split: outcome.splits option.splits)
next
  case (Some res)
  then obtain availability where b: "batch = Returns (Some availability)"
    and loop: "batchLoop v availability generateDateRange Map.empty = Some res"
    by (auto simp: batchTry_def split: outcome.splits option.splits if_splits)
  from batchLoop_in [OF loop assms(1)] assms(2) Some b show ?thesis
    by (auto simp: fetchAvailability_def fetchedSlots_def)
qed

lemma scheduleData_nth:
  "i < 15 \<Longrightarrow> scheduleData data ! i =
     \<lparr>date = generateDateRange ! i,
      slots = map (scheduleSlot data (generateDateRange ! i)) generateTimeSlots\<rparr>"
  by (simp add: scheduleData_def length_generateDateRange)

lemma scheduleSlot_row:
  "data d = Some row \<Longrightarrow> row t = Some c \<Longrightarrow>
   scheduleSlot data d t = \<lparr>available = available c, seats = seats c, capacity = capacity c, time = t\<rparr>"
  by (simp add: scheduleSlot_def)

lemma scheduleSlot_empty:
  "data d = None \<Longrightarrow> scheduleSlot data d t = \<lparr>available = True, seats = None, capacity = None, time = t\<rparr>"
  by (simp add: scheduleSlot_def)

lemma nth_generateDateRange_mem: "i < 15 \<Longrightarrow> generateDateRange ! i \<in> set generateDateRange"
  by (simp add: length_generateDateRange)

lemma schedule_date: "i < 15 \<Longrightarrow> date (scheduleData data ! i) = generateDateRange ! i"
  by (simp add: scheduleData_nth)

lemma schedule_times: "i < 15 \<Longrightarrow> map time (slots (scheduleData data ! i)) = generateTimeSlots"
  by (simp add: scheduleData_nth scheduleSlot_def Let_def comp_def)

lemma schedule_length: "i < 15 \<Longrightarrow> length (slots (scheduleData data ! i)) = 40"
  by (simp add: scheduleData_nth length_generateTimeSlots)

lemma schedule_slot_nth:
  "i < 15 \<Longrightarrow> j < 40 \<Longrightarrow>
   slots (scheduleData data ! i) ! j = scheduleSlot data (generateDateRange ! i) (generateTimeSlots ! j)"
  by (simp add: scheduleData_nth length_generateTimeSlots)

lemma schedule_entry_fetched:
  assumes "i < 15" and "j < 40"
    and "fetchedSlots v batch individual (generateDateRange ! i) = Some availableSlots"
  shows "slots (scheduleData (fetchAvailability v batch individual) ! i) ! j =
     \<lparr>available = available (slotCell v (int j) availableSlots),
      seats = seats (slotCell v (int j) availableSlots),
      capacity = capacity (slotCell v (int j) availableSlots),
      time = generateTimeSlots ! j\<rparr>"
proof -
  have "fetchAvailability v batch individual (generateDateRange ! i) = Some (fillRow v availableSlots)"
    using assms by (intro fetchAvailability_fetched nth_generateDateRange_mem)
  moreover have "fillRow v availableSlots (generateTimeSlots ! j) = Some (slotCell v (int j) availableSlots)"
    using assms(2) by (rule fillRow_nth)
  ultimately show ?thesis using assms(1,2)
    by (simp add: schedule_slot_nth scheduleSlot_row)
qed






lemma foldl_individualStep_without_list:
  "\<forall>d\<in>set ds. individual d = Returns None \<Longrightarrow> foldl (individualStep v individual) acc ds = acc"
  by (induction ds arbitrary: acc) (simp_all add: individualStep_def)

lemma schedule_all:
  assumes "day \<in> set (scheduleData data)"
  obtains i where "i < 15" and "day = scheduleData data ! i"
  using assms by (auto simp: in_set_conv_nth scheduleData_def length_generateDateRange)

section \<open>Facts about the example inputs\<close>

lemma exampleSlots_eq:
  "exampleSlots =
    [\<lparr>slot = 0, availableSeats = 6, maxCapacity = 6\<rparr>, \<lparr>slot = 1, availableSeats = 6, maxCapacity = 6\<rparr>,
     \<lparr>slot = 2, availableSeats = 6, maxCapacity = 6\<rparr>, \<lparr>slot = 3, availableSeats = 6, maxCapacity = 6\<rparr>,
     \<lparr>slot = 4, availableSeats = 6, maxCapacity = 6\<rparr>, \<lparr>slot = 5, availableSeats = 6, maxCapacity = 6\<rparr>,
     \<lparr>slot = 6, availableSeats = 6, maxCapacity = 6\<rparr>, \<lparr>slot = 7, availableSeats = 6, maxCapacity = 6\<rparr>,
     \<lparr>slot = 8, availableSeats = 6, maxCapacity = 6\<rparr>, \<lparr>slot = 9, availableSeats = 6, maxCapacity = 6\<rparr>,
     \<lparr>slot = 10, availableSeats = 6, maxCapacity = 6\<rparr>, \<lparr>slot = 11, availableSeats = 2, maxCapacity = 6\<rparr>]"
  by (simp add: exampleSlots_def upto_rec1)

lemma exampleSlots_lookup:
  "k \<in> {0..11} \<Longrightarrow> perSlotAvailability exampleSlots k = Some (if k = 11 then 2 else 6)"
proof -
  assume "k \<in> {0..11}"
  then have "k = 0 \<or> k = 1 \<or> k = 2 \<or> k = 3 \<or> k = 4 \<or> k = 5 \<or> k = 6 \<or> k = 7 \<or> k = 8 \<or> k = 9
      \<or> k = 10 \<or> k = 11" by (simp only: atLeastAtMost_iff) arith
  then show ?thesis
    by (elim disjE) (simp_all add: perSlotAvailability_def exampleSlots_eq)
qed

lemma exampleOver_lookup: "0 \<le> k \<Longrightarrow> k \<le> 39 \<Longrightarrow> perSlotAvailability exampleOver k = Some 9"
proof -
  assume "0 \<le> k" "k \<le> 39"
  then have "find (\<lambda>e. slot e = k) exampleOver \<noteq> None"
    by (auto simp: exampleOver_def find_None_iff)
  then obtain e where e: "find (\<lambda>e. slot e = k) exampleOver = Some e" by auto
  then have "e \<in> set exampleOver" by (auto simp: find_Some_iff)
  then have "availableSeats e = 9" by (auto simp: exampleOver_def)
  with e show ?thesis by (simp add: perSlotAvailability_def)
qed

lemma fetchedSlots_allSoldOutAtZero:
  "fetchedSlots v Throws allSoldOutAtZero d = Some [\<lparr>slot = 0, availableSeats = 0, maxCapacity = 6\<rparr>]"
  by (simp add: fetchedSlots_def batchTry_def allSoldOutAtZero_def)

section \<open>The claims\<close>

text \<open>
  Claim C1. For a start slot from 0 to 39 and a list in which every occupied slot has an
  entry with a seat count from 0 to 6, \<open>calculateMaxBookableSeats\<close> returns the
  least seat count over the occupied slots. In particular, when the slots 0 to 11 are
  all listed with at least two seats and slot 11 with exactly two, the result for start
  slot 0 is 2.
\<close>

theorem calculateMaxBookableSeats_minimum:
  "(0 \<le> s \<and> s \<le> 39 \<and>
      (\<forall>k\<in>set (occupiedSlots s). \<exists>n. perSlotAvailability av k = Some n \<and> 0 \<le> n \<and> n \<le> 6)
    \<longrightarrow> calculateMaxBookableSeats s av =
          Min ((\<lambda>k. the (perSlotAvailability av k)) ` set (occupiedSlots s)))
   \<and> ((\<forall>k\<in>{0..11}. \<exists>n. perSlotAvailability av' k = Some n \<and> 2 \<le> n) \<and>
       perSlotAvailability av' 11 = Some 2
    \<longrightarrow> calculateMaxBookableSeats 0 av' = 2)"
proof (intro conjI impI)
  let ?S = "(\<lambda>k. the (perSlotAvailability av k)) ` set (occupiedSlots s)"
  assume h: "0 \<le> s \<and> s \<le> 39 \<and>
      (\<forall>k\<in>set (occupiedSlots s). \<exists>n. perSlotAvailability av k = Some n \<and> 0 \<le> n \<and> n \<le> 6)"
  then have present: "\<forall>k\<in>set (occupiedSlots s). perSlotAvailability av k \<noteq> None" by auto
  from h have ne: "?S \<noteq> {}" using occupiedSlots_nonempty [of s] by auto
  from h have "\<forall>x\<in>?S. x \<le> 6" by auto
  with ne have "Min ?S \<le> 6" by (meson List.finite_set Min_in finite_imageI)
  with ne have "Min (insert 6 ?S) = Min ?S" by (simp add: min_absorb2)
  with present show "calculateMaxBookableSeats s av = Min ?S"
    by (simp add: calculateMaxBookableSeats_present)
next
  let ?S = "(\<lambda>k. the (perSlotAvailability av' k)) ` set (occupiedSlots 0)"
  assume h: "(\<forall>k\<in>{0..11}. \<exists>n. perSlotAvailability av' k = Some n \<and> 2 \<le> n) \<and>
       perSlotAvailability av' 11 = Some 2"
  have occ: "set (occupiedSlots 0) = {0..11}" by (simp add: occupiedSlots_eq)
  with h have present: "\<forall>k\<in>set (occupiedSlots 0). perSlotAvailability av' k \<noteq> None" by auto
  from h occ have lower: "\<forall>x\<in>insert 6 ?S. 2 \<le> x" by auto
  from h occ have "the (perSlotAvailability av' 11) = 2" and "(11::int) \<in> set (occupiedSlots 0)" by auto
  then have "2 \<in> ?S" by (metis imageI)
  then have "2 \<in> insert 6 ?S" by simp
  with lower have "Min (insert 6 ?S) = 2"
    by (intro Min_eqI) auto
  with present show "calculateMaxBookableSeats 0 av' = 2"
    by (simp add: calculateMaxBookableSeats_present)
qed

theorem calculateMaxBookableSeats_minimum_witness:
  "calculateMaxBookableSeats 0 exampleSlots =
     Min ((\<lambda>k. the (perSlotAvailability exampleSlots k)) ` set (occupiedSlots 0))
   \<and> calculateMaxBookableSeats 0 exampleSlots = 2"
proof -
  have occ: "set (occupiedSlots 0) = {0..11}" by (simp add: occupiedSlots_eq)
  have h1: "(0::int) \<le> 0 \<and> (0::int) \<le> 39 \<and>
      (\<forall>k\<in>set (occupiedSlots 0). \<exists>n. perSlotAvailability exampleSlots k = Some n \<and> 0 \<le> n \<and> n \<le> 6)"
    by (simp add: occ exampleSlots_lookup)
  have h2: "(\<forall>k\<in>{0..11}. \<exists>n. perSlotAvailability exampleSlots k = Some n \<and> 2 \<le> n) \<and>
       perSlotAvailability exampleSlots 11 = Some 2"
    by (simp add: exampleSlots_lookup)
  from calculateMaxBookableSeats_minimum [of 0 exampleSlots exampleSlots] h1 h2
  show ?thesis by blast
qed

text \<open>
  Claim C2. If some occupied slot of the start slot has no entry in the list,
  \<open>calculateMaxBookableSeats\<close> returns 0, whatever the entries of the other slots say.
  This holds for every start slot, so for those from 0 to 39.
\<close>

theorem calculateMaxBookableSeats_missing_slot:
  assumes "k \<in> set (occupiedSlots startSlot)" and "perSlotAvailability availableSlots k = None"
  shows "calculateMaxBookableSeats startSlot availableSlots = 0"
  unfolding calculateMaxBookableSeats_def using assms by (intro minSeatsLoop_missing) blast

theorem calculateMaxBookableSeats_missing_slot_witness:
  "5 \<in> set (occupiedSlots 0) \<and> perSlotAvailability exampleGap 5 = None
   \<and> perSlotAvailability exampleGap 4 = Some 6
   \<and> calculateMaxBookableSeats 0 exampleGap = 0"
proof -
  have a: "5 \<in> set (occupiedSlots 0)" by (simp add: occupiedSlots_eq)
  have b: "perSlotAvailability exampleGap 5 = None"
    by (simp add: perSlotAvailability_def exampleGap_def exampleSlots_eq)
  have c: "perSlotAvailability exampleGap 4 = Some 6"
    by (simp add: perSlotAvailability_def exampleGap_def exampleSlots_eq)
  from calculateMaxBookableSeats_missing_slot [OF a b] a b c show ?thesis by simp
qed

text \<open>
  Claim C3. For a start slot from 0 to 39 the occupied slots are the twelve slots from
  the start slot on, cut at 39, when the start slot is at most 27 (the cut then removes
  nothing), and the slots from the start slot to 39 otherwise. For start slot 30 they are
  the ten slots 30 to 39, for start slot 39 slot 39 alone.
\<close>

theorem occupiedSlots_window:
  "(0 \<le> s \<and> s \<le> 39 \<longrightarrow>
      occupiedSlots s = (if s \<le> 27 then [s..min (s + 11) 39] else [s..39])
      \<and> (s \<le> 27 \<longrightarrow> occupiedSlots s = [s..s + 11] \<and> length (occupiedSlots s) = 12))
   \<and> occupiedSlots 30 = [30, 31, 32, 33, 34, 35, 36, 37, 38, 39]
   \<and> length (occupiedSlots 30) = 10
   \<and> occupiedSlots 39 = [39]"
  by (simp add: occupiedSlots_eq)

theorem occupiedSlots_window_witness:
  "occupiedSlots 5 = [5, 6, 7, 8, 9, 10, 11, 12, 13, 14, 15, 16]
   \<and> occupiedSlots 27 = [27, 28, 29, 30, 31, 32, 33, 34, 35, 36, 37, 38]
   \<and> occupiedSlots 28 = [28, 29, 30, 31, 32, 33, 34, 35, 36, 37, 38, 39]"
  using occupiedSlots_window [of 5] occupiedSlots_window [of 27] occupiedSlots_window [of 28]
  by simp

text \<open>
  Claim C4. \<open>generateTimeSlots\<close> produces 40 labels, from 18:00 to 03:45. For each of
  them \<open>convertTimeToSlot\<close> yields an integer slot index, and turning that index back
  into a label, as the reservation list does, gives the label again.
\<close>

theorem time_label_round_trip:
  "length generateTimeSlots = 40 \<and> hd generateTimeSlots = ''18:00'' \<and> last generateTimeSlots = ''03:45''
   \<and> (\<forall>t\<in>set generateTimeSlots. \<exists>n. convertTimeToSlot t = Some (of_int n) \<and> slotToTime n = t)"
proof (intro conjI ballI)
  show "length generateTimeSlots = 40" by (rule length_generateTimeSlots)
  show "hd generateTimeSlots = ''18:00''" by (simp add: generateTimeSlots_eq)
  show "last generateTimeSlots = ''03:45''" by (simp add: generateTimeSlots_eq)
next
  fix t assume "t \<in> set generateTimeSlots"
  then obtain i where i: "i < 40" and t: "t = generateTimeSlots ! i"
    by (auto simp: in_set_conv_nth length_generateTimeSlots)
  have "convertTimeToSlot t = Some (of_int (int i))" using i t by (simp add: convert_nth)
  moreover have "slotToTime (int i) = t" using i t by (simp add: back_nth)
  ultimately show "\<exists>n. convertTimeToSlot t = Some (of_int n) \<and> slotToTime n = t" by blast
qed

theorem time_label_round_trip_witness:
  "''00:00'' \<in> set generateTimeSlots
   \<and> (\<exists>n. convertTimeToSlot ''00:00'' = Some (of_int n) \<and> slotToTime n = ''00:00'')"
proof -
  have m: "''00:00'' \<in> set generateTimeSlots" by (simp add: generateTimeSlots_eq)
  with time_label_round_trip show ?thesis by blast
qed

text \<open>
  Claim C5, amended. For a date whose availability data was fetched, the day view has
  40 entries, one per label of \<open>generateTimeSlots\<close> in that order. In the copy with
  \<open>calculateMaxBookableSeats\<close> every entry has \<open>maxCapacity\<close> 6, \<open>availableSeats\<close> equal
  to the seats bookable from its slot, and \<open>available\<close> exactly when that number is
  positive. In the copy without it, an entry whose slot the backend lists is
  \<open>available\<close> with the backend's \<open>availableSeats\<close> and \<open>maxCapacity\<close>, and an entry
  whose slot is not listed is unavailable with 0 seats and capacity 6; so there
  \<open>maxCapacity\<close> is 6 and \<open>available\<close> means \<open>availableSeats > 0\<close> in every entry when the
  backend lists only entries with a positive seat count and capacity 6.
\<close>

theorem day_view_of_fetched_date:
  assumes "i < length generateDateRange"
    and "fetchedSlots v batch individual (generateDateRange ! i) = Some availableSlots"
  shows "date (initializeSchedule v batch individual ! i) = generateDateRange ! i
    \<and> length (slots (initializeSchedule v batch individual ! i)) = 40
    \<and> map time (slots (initializeSchedule v batch individual ! i)) = generateTimeSlots
    \<and> (v = Window \<longrightarrow>
         (\<forall>j<40. slots (initializeSchedule v batch individual ! i) ! j =
            \<lparr>available = (calculateMaxBookableSeats (int j) availableSlots > 0),
             seats = Some (calculateMaxBookableSeats (int j) availableSlots),
             capacity = Some 6,
             time = generateTimeSlots ! j\<rparr>)
         \<and> (\<forall>e\<in>set (slots (initializeSchedule v batch individual ! i)).
              capacity e = Some 6 \<and> (\<exists>n. seats e = Some n \<and> available e = (n > 0))))
    \<and> (v = PerSlot \<longrightarrow>
         (\<forall>j<40. slots (initializeSchedule v batch individual ! i) ! j =
            (case find (\<lambda>e. slot e = int j) availableSlots of
               Some slotData \<Rightarrow>
                 \<lparr>available = True, seats = Some (availableSeats slotData),
                  capacity = Some (maxCapacity slotData), time = generateTimeSlots ! j\<rparr>
             | None \<Rightarrow>
                 \<lparr>available = False, seats = Some 0, capacity = Some 6,
                  time = generateTimeSlots ! j\<rparr>))
         \<and> ((\<forall>sd\<in>set availableSlots. availableSeats sd > 0 \<and> maxCapacity sd = 6) \<longrightarrow>
              (\<forall>e\<in>set (slots (initializeSchedule v batch individual ! i)).
                 capacity e = Some 6 \<and> (\<exists>n. seats e = Some n \<and> available e = (n > 0)))))"
proof -
  let ?day = "initializeSchedule v batch individual ! i"
  note prems = assms [unfolded length_generateDateRange]
  have d: "date ?day = generateDateRange ! i"
    using prems(1) by (simp add: initializeSchedule_def schedule_date)
  have len: "length (slots ?day) = 40"
    using prems(1) by (simp add: initializeSchedule_def schedule_length)
  have times: "map time (slots ?day) = generateTimeSlots"
    using prems(1) by (simp add: initializeSchedule_def schedule_times)
  have nth: "\<exists>j<40. e = slots ?day ! j" if "e \<in> set (slots ?day)" for e
    using that len by (auto simp: in_set_conv_nth)
  have window: "\<forall>j<40. slots ?day ! j =
            \<lparr>available = (calculateMaxBookableSeats (int j) availableSlots > 0),
             seats = Some (calculateMaxBookableSeats (int j) availableSlots),
             capacity = Some 6,
             time = generateTimeSlots ! j\<rparr>" if "v = Window"
    using prems that by (simp add: initializeSchedule_def schedule_entry_fetched slotCell_def Let_def)
  have window_all: "\<forall>e\<in>set (slots ?day). capacity e = Some 6 \<and> (\<exists>n. seats e = Some n \<and> available e = (n > 0))"
    if "v = Window"
  proof
    fix e assume "e \<in> set (slots ?day)"
    then obtain j where "j < 40" and "e = slots ?day ! j" using nth by blast
    with window [OF that] show "capacity e = Some 6 \<and> (\<exists>n. seats e = Some n \<and> available e = (n > 0))"
      by simp
  qed
  have perSlot: "\<forall>j<40. slots ?day ! j =
            (case find (\<lambda>e. slot e = int j) availableSlots of
               Some slotData \<Rightarrow>
                 \<lparr>available = True, seats = Some (availableSeats slotData),
                  capacity = Some (maxCapacity slotData), time = generateTimeSlots ! j\<rparr>
             | None \<Rightarrow>
                 \<lparr>available = False, seats = Some 0, capacity = Some 6,
                  time = generateTimeSlots ! j\<rparr>)" if "v = PerSlot"
    using prems that
    by (simp add: initializeSchedule_def schedule_entry_fetched slotCell_def split: option.splits)
  have perSlot_all: "\<forall>e\<in>set (slots ?day). capacity e = Some 6 \<and> (\<exists>n. seats e = Some n \<and> available e = (n > 0))"
    if "v = PerSlot" and good: "\<forall>sd\<in>set availableSlots. availableSeats sd > 0 \<and> maxCapacity sd = 6"
  proof
    fix e assume "e \<in> set (slots ?day)"
    then obtain j where j: "j < 40" and e: "e = slots ?day ! j" using nth by blast
    show "capacity e = Some 6 \<and> (\<exists>n. seats e = Some n \<and> available e = (n > 0))"
    proof (cases "find (\<lambda>e. slot e = int j) availableSlots")
      case None
      with perSlot [OF that(1)] j e show ?thesis by simp
    next
      case (Some sd)
      then have "sd \<in> set availableSlots" by (auto simp: find_Some_iff)
      with good have "availableSeats sd > 0" and "maxCapacity sd = 6" by auto
      with perSlot [OF that(1)] j e Some show ?thesis by simp
    qed
  qed
  from d len times window window_all perSlot perSlot_all show ?thesis by blast
qed

theorem day_view_of_fetched_date_witness:
  "fetchedSlots Window Throws allSoldOutAtZero (generateDateRange ! 0)
     = Some [\<lparr>slot = 0, availableSeats = 0, maxCapacity = 6\<rparr>]
   \<and> slots (initializeSchedule Window Throws allSoldOutAtZero ! 0) ! 0
     = \<lparr>available = False, seats = Some 0, capacity = Some 6, time = ''18:00''\<rparr>
   \<and> slots (initializeSchedule PerSlot Throws allSoldOutAtZero ! 0) ! 39
     = \<lparr>available = False, seats = Some 0, capacity = Some 6, time = ''03:45''\<rparr>"
proof -
  have i: "0 < length generateDateRange" by (simp add: length_generateDateRange)
  have c: "calculateMaxBookableSeats 0 [\<lparr>slot = 0, availableSeats = 0, maxCapacity = 6\<rparr>] = 0"
    by (simp add: calculateMaxBookableSeats_def occupiedSlots_eq upto_rec1)
  have t: "generateTimeSlots ! 0 = ''18:00''" "generateTimeSlots ! 39 = ''03:45''"
    by (simp_all add: generateTimeSlots_eq)
  from day_view_of_fetched_date [OF i fetchedSlots_allSoldOutAtZero [of Window "generateDateRange ! 0"]]
  have "slots (initializeSchedule Window Throws allSoldOutAtZero ! 0) ! 0
     = \<lparr>available = False, seats = Some 0, capacity = Some 6, time = ''18:00''\<rparr>"
    by (simp add: c t)
  moreover
  from day_view_of_fetched_date [OF i fetchedSlots_allSoldOutAtZero [of PerSlot "generateDateRange ! 0"]]
  have "slots (initializeSchedule PerSlot Throws allSoldOutAtZero ! 0) ! 39
     = \<lparr>available = False, seats = Some 0, capacity = Some 6, time = ''03:45''\<rparr>"
    by (simp add: t)
  ultimately show ?thesis by (simp add: fetchedSlots_allSoldOutAtZero)
qed

text \<open>
  Claim C5 as stated fails in the copy without \<open>calculateMaxBookableSeats\<close>: when the
  backend lists slot 0 with no seat left, the entry of 18:00 is \<open>available\<close> although its
  \<open>availableSeats\<close> is 0.
\<close>

theorem day_view_available_counterexample:
  "fetchedSlots PerSlot Throws allSoldOutAtZero (generateDateRange ! 0)
     = Some [\<lparr>slot = 0, availableSeats = 0, maxCapacity = 6\<rparr>]
   \<and> seats (slots (initializeSchedule PerSlot Throws allSoldOutAtZero ! 0) ! 0) = Some 0
   \<and> available (slots (initializeSchedule PerSlot Throws allSoldOutAtZero ! 0) ! 0) \<noteq> ((0::int) > 0)"
proof -
  have "slots (initializeSchedule PerSlot Throws allSoldOutAtZero ! 0) ! 0 =
     \<lparr>available = True, seats = Some 0, capacity = Some 6, time = generateTimeSlots ! 0\<rparr>"
    using schedule_entry_fetched [of 0 0 PerSlot Throws allSoldOutAtZero, OF _ _ fetchedSlots_allSoldOutAtZero]
    by (simp add: initializeSchedule_def slotCell_def)
  then show ?thesis by (simp add: fetchedSlots_allSoldOutAtZero)
qed




text \<open>
  Claim C7. \<open>convertTimeToSlot\<close> maps 18:00 to 0, 27:45 to 39 and 00:00 to 24.
\<close>

theorem convertTimeToSlot_examples:
  "convertTimeToSlot ''18:00'' = Some 0 \<and> convertTimeToSlot ''27:45'' = Some 39
   \<and> convertTimeToSlot ''00:00'' = Some 24"
  by (simp add: convertTimeToSlot_def Number_def digitVal_def)

text \<open>
  Claim C8. When \<open>fetchAvailability\<close> returns the empty map, the schedule built by
  \<open>initializeSchedule\<close>, and equally by \<open>refreshSchedule\<close>, has for every date of the
  range every slot available, with \<open>availableSeats\<close> and \<open>maxCapacity\<close> undefined.
\<close>

theorem empty_availability_fails_open:
  assumes "fetchAvailability v batch individual = Map.empty"
  shows "map date (initializeSchedule v batch individual) = generateDateRange
    \<and> (\<forall>day\<in>set (initializeSchedule v batch individual).
          map time (slots day) = generateTimeSlots
          \<and> (\<forall>e\<in>set (slots day). available e \<and> seats e = None \<and> capacity e = None))
    \<and> refreshSchedule v batch individual = initializeSchedule v batch individual"
proof (intro conjI ballI)
  show "map date (initializeSchedule v batch individual) = generateDateRange"
    by (simp add: initializeSchedule_def scheduleData_def comp_def)
  show "refreshSchedule v batch individual = initializeSchedule v batch individual"
    by (simp add: refreshSchedule_def initializeSchedule_def)
  fix day assume day: "day \<in> set (initializeSchedule v batch individual)"
  then obtain i where i: "i < 15"
    and eq: "day = scheduleData (fetchAvailability v batch individual) ! i"
    unfolding initializeSchedule_def by (rule schedule_all)
  from i eq show "map time (slots day) = generateTimeSlots" by (simp add: schedule_times)
  fix e assume "e \<in> set (slots day)"
  then obtain t where "e = scheduleSlot (fetchAvailability v batch individual) (generateDateRange ! i) t"
    using i eq by (auto simp: scheduleData_nth)
  then show "available e" and "seats e = None" and "capacity e = None"
    using assms by (simp_all add: scheduleSlot_empty)
qed

theorem empty_availability_fails_open_witness:
  "fetchAvailability Window Throws allWithoutList = Map.empty
   \<and> available (slots (initializeSchedule Window Throws allWithoutList ! 14) ! 39)
   \<and> seats (slots (initializeSchedule Window Throws allWithoutList ! 14) ! 39) = None
   \<and> capacity (slots (initializeSchedule Window Throws allWithoutList ! 14) ! 39) = None"
proof -
  let ?sched = "initializeSchedule Window Throws allWithoutList"
  have e: "fetchAvailability Window Throws allWithoutList = Map.empty"
    by (simp add: fetchAvailability_def batchTry_def foldl_individualStep_without_list allWithoutList_def)
  note all = empty_availability_fails_open [OF e]
  have "length ?sched = 15"
    by (simp add: initializeSchedule_def scheduleData_def length_generateDateRange)
  then have day: "?sched ! 14 \<in> set ?sched" by simp
  with all have "map time (slots (?sched ! 14)) = generateTimeSlots" by blast
  then have "length (slots (?sched ! 14)) = 40"
    using length_generateTimeSlots by (metis length_map)
  then have "slots (?sched ! 14) ! 39 \<in> set (slots (?sched ! 14))" by simp
  with all day e show ?thesis by blast
qed

text \<open>
  Claim C9. For every index below 40, \<open>convertTimeToSlot\<close> maps the label at that index
  of \<open>generateTimeSlots\<close> to the index itself. The label of grid row \<open>i\<close> of any day of
  the schedule is that label, so the \<open>timeSlot\<close> that \<open>handleReservationSubmit\<close> computes
  from the clicked cell's time is the row index.
\<close>

theorem convertTimeToSlot_row_index:
  assumes "i < 40"
  shows "convertTimeToSlot (generateTimeSlots ! i) = Some (of_nat i)
    \<and> (\<forall>day\<in>set (scheduleData availabilityData).
          convertTimeToSlot (time (slots day ! i)) = Some (of_nat i))"
proof (intro conjI ballI)
  show c: "convertTimeToSlot (generateTimeSlots ! i) = Some (of_nat i)"
    using assms by (rule convert_nth)
  fix day assume "day \<in> set (scheduleData availabilityData)"
  then obtain k where "k < 15" and "day = scheduleData availabilityData ! k"
    by (rule schedule_all)
  then have "time (slots day ! i) = generateTimeSlots ! i"
    using assms by (simp add: schedule_slot_nth scheduleSlot_def Let_def)
  with c show "convertTimeToSlot (time (slots day ! i)) = Some (of_nat i)" by simp
qed

theorem convertTimeToSlot_row_index_witness:
  "generateTimeSlots ! 24 = ''00:00'' \<and> convertTimeToSlot (generateTimeSlots ! 24) = Some 24"
proof -
  have "generateTimeSlots ! 24 = ''00:00''" by (simp add: generateTimeSlots_eq)
  moreover have "(24::nat) < 40" by simp
  from convertTimeToSlot_row_index [OF this, of Map.empty]
  have "convertTimeToSlot (generateTimeSlots ! 24) = Some 24" by simp
  ultimately show ?thesis by simp
qed

text \<open>
  Claim C10. \<open>calculateMaxBookableSeats\<close> never returns more than 6, for any start slot
  and any list; when every occupied slot is listed with more than six seats, the result
  is 6.
\<close>

theorem calculateMaxBookableSeats_at_most_capacity:
  "calculateMaxBookableSeats startSlot availableSlots \<le> 6
   \<and> (0 \<le> startSlot \<and> startSlot \<le> 39 \<and>
      (\<forall>k\<in>set (occupiedSlots startSlot). \<exists>n. perSlotAvailability availableSlots k = Some n \<and> 6 < n)
      \<longrightarrow> calculateMaxBookableSeats startSlot availableSlots = 6)"
proof (intro conjI impI)
  have "minSeatsLoop availableSlots 6 (occupiedSlots startSlot) \<le> max 6 0" by (rule minSeatsLoop_le)
  then show "calculateMaxBookableSeats startSlot availableSlots \<le> 6"
    by (simp add: calculateMaxBookableSeats_def)
next
  assume "0 \<le> startSlot \<and> startSlot \<le> 39 \<and>
      (\<forall>k\<in>set (occupiedSlots startSlot). \<exists>n. perSlotAvailability availableSlots k = Some n \<and> 6 < n)"
  then have "\<forall>k\<in>set (occupiedSlots startSlot). \<exists>n. perSlotAvailability availableSlots k = Some n \<and> 6 \<le> n"
    by (meson less_imp_le)
  then show "calculateMaxBookableSeats startSlot availableSlots = 6"
    unfolding calculateMaxBookableSeats_def by (rule minSeatsLoop_ge)
qed

theorem calculateMaxBookableSeats_at_most_capacity_witness:
  "perSlotAvailability exampleOver 20 = Some 9 \<and> calculateMaxBookableSeats 20 exampleOver = 6"
proof -
  have "\<forall>k\<in>set (occupiedSlots 20). \<exists>n. perSlotAvailability exampleOver k = Some n \<and> 6 < n"
    by (simp add: occupiedSlots_eq exampleOver_lookup)
  with calculateMaxBookableSeats_at_most_capacity [of 20 exampleOver] show ?thesis
    by (simp add: exampleOver_lookup)
qed

end
